theory Spec2Isabelle
  imports Complex_Main "HOL-Library.Char_ord" "HOL-Library.List_Lexorder" "HOL-Library.Word"
begin

section \<open>Tables as the dashboard scripts see them\<close>

text \<open>
  The three scripts (\<^verbatim>\<open>app.py\<close>, \<^verbatim>\<open>app_v2.py\<close>, \<^verbatim>\<open>app_multi.py\<close>) work on a pandas
  data frame read from a CSV export. A cell of such a frame is a missing value
  (\<^verbatim>\<open>NaN\<close>/\<^verbatim>\<open>NaT\<close>), a number, a string or, after \<^verbatim>\<open>pd.to_datetime\<close>, a timestamp.
  A number cell holds the real number its machine value stands for, and \<^verbatim>\<open>NaN\<close>
  is the separate value \<open>Null\<close> (\<open>None\<close> in a numeric series). The arithmetic
  that the scripts do on numeric columns, on 64-bit integers that wrap around
  or binary64 floats that round, has a section of its own below.
  A row maps column names to cells; the frame keeps the list of column names the
  CSV header supplied.
\<close>

datatype cell = Null | Num real | Str string | Ts int

type_synonym row = "string \<Rightarrow> cell"

record frame =
  columns :: "string list"
  rows :: "row list"

definition empty_row :: row where
  "empty_row = (\<lambda>col. Null)"

text \<open>
  The string parsers and printers of pandas are library code outside the
  repository; the model takes them as parameters: \<open>parse_number\<close> is what
  \<^verbatim>\<open>pd.to_numeric\<close> makes of a string (\<open>None\<close> when it cannot be parsed),
  \<open>strptime\<close> is the \<^verbatim>\<open>%d/%m/%y\<close> parser of \<^verbatim>\<open>pd.to_datetime\<close>, and the two
  printers are \<^verbatim>\<open>str\<close> on numbers and timestamps.
\<close>

record parsers =
  parse_number :: "string \<Rightarrow> real option"
  format_number :: "real \<Rightarrow> string"
  format_timestamp :: "int \<Rightarrow> string"
  strptime :: "string \<Rightarrow> int option"

datatype error = SchemaError "string list" | KeyError string | MergeError

subsection \<open>Element-wise series operations\<close>

text \<open>\<^verbatim>\<open>series.astype(str)\<close>: every cell becomes a string, a missing one the string \<^verbatim>\<open>nan\<close>.\<close>

fun astype_str :: "parsers \<Rightarrow> cell \<Rightarrow> cell" where
  "astype_str L Null = Str ''nan''"
| "astype_str L (Num x) = Str (format_number L x)"
| "astype_str L (Str s) = Str s"
| "astype_str L (Ts t) = Str (format_timestamp L t)"

text \<open>\<^verbatim>\<open>pd.to_numeric(series, errors="coerce")\<close>: a float series, \<open>None\<close> for \<^verbatim>\<open>NaN\<close>.\<close>

fun to_numeric :: "parsers \<Rightarrow> cell \<Rightarrow> real option" where
  "to_numeric L Null = None"
| "to_numeric L (Num x) = Some x"
| "to_numeric L (Str s) = parse_number L s"
| "to_numeric L (Ts t) = Some (of_int t)"

text \<open>\<^verbatim>\<open>series.fillna(v)\<close>: afterwards no value of the series is missing.\<close>

fun fillna :: "'a \<Rightarrow> 'a option \<Rightarrow> 'a" where
  "fillna v None = v"
| "fillna v (Some x) = x"

text \<open>Storing a float series back into the frame.\<close>

fun of_float :: "real option \<Rightarrow> cell" where
  "of_float None = Null"
| "of_float (Some x) = Num x"

text \<open>Reading a numeric column of the frame as a float series.\<close>

fun as_float :: "cell \<Rightarrow> real option" where
  "as_float (Num x) = Some x"
| "as_float c = None"

text \<open>\<^verbatim>\<open>series * k\<close> on a float series: \<^verbatim>\<open>NaN\<close> stays \<^verbatim>\<open>NaN\<close>.\<close>

definition mul_scalar :: "real option \<Rightarrow> real \<Rightarrow> real option" where
  "mul_scalar s k = map_option (\<lambda>x. x * k) s"

text \<open>
  \<^verbatim>\<open>pd.to_datetime(series, format="%d/%m/%y", errors="coerce")\<close>: a number is
  printed and then parsed like a string; whatever does not parse becomes \<^verbatim>\<open>NaT\<close>.
\<close>

fun to_datetime :: "parsers \<Rightarrow> cell \<Rightarrow> cell" where
  "to_datetime L Null = Null"
| "to_datetime L (Ts t) = Ts t"
| "to_datetime L (Str s) = (case strptime L s of None \<Rightarrow> Null | Some t \<Rightarrow> Ts t)"
| "to_datetime L (Num x) =
     (case strptime L (format_number L x) of None \<Rightarrow> Null | Some t \<Rightarrow> Ts t)"

text \<open>\<^verbatim>\<open>series.isna()\<close>, \<^verbatim>\<open>series == "..."\<close> and \<^verbatim>\<open>series.isin(list_of_strings)\<close>.\<close>

definition isna :: "cell \<Rightarrow> bool" where
  "isna c = (c = Null)"

fun isin :: "cell \<Rightarrow> string list \<Rightarrow> bool" where
  "isin (Str s) xs = (s \<in> set xs)"
| "isin c xs = False"

text \<open>
  Comparisons of a datetime series with a timestamp and of a float series with a
  number: a missing value compares false on both sides.
\<close>

fun ts_ge :: "cell \<Rightarrow> int \<Rightarrow> bool" where
  "ts_ge (Ts t) s = (t \<ge> s)"
| "ts_ge c s = False"

fun ts_le :: "cell \<Rightarrow> int \<Rightarrow> bool" where
  "ts_le (Ts t) s = (t \<le> s)"
| "ts_le c s = False"

fun num_ge :: "cell \<Rightarrow> real \<Rightarrow> bool" where
  "num_ge (Num x) k = (x \<ge> k)"
| "num_ge c k = False"

fun num_le :: "cell \<Rightarrow> real \<Rightarrow> bool" where
  "num_le (Num x) k = (x \<le> k)"
| "num_le c k = False"

section \<open>Ingestion and normalisation: \<^verbatim>\<open>load_data\<close>\<close>

text \<open>
  \<^verbatim>\<open>load_data\<close> of \<^verbatim>\<open>app_multi.py\<close>, from the frame \<^verbatim>\<open>pd.read_csv\<close> returned on
  (the download before it is an external collaborator). The column check
  reports every missing name and stops the script; the six assignments then
  coerce one column each, row by row.
\<close>

definition required_cols :: "string list" where
  "required_cols = [''Plot_Number'', ''Plot_Size'', ''Sold_Amount'', ''X_pixel'',
     ''Y_pixel'', ''Sold_Date'', ''Owner_Name'', ''Status'']"

definition coerce_row :: "parsers \<Rightarrow> row \<Rightarrow> row" where
  "coerce_row L r0 =
     (let r = r0(''Plot_Number'' := astype_str L (r0 ''Plot_Number''));
          r = r(''Plot_Size'' := of_float (to_numeric L (r ''Plot_Size'')));
          r = r(''Sold_Amount'' := Num (fillna 0 (to_numeric L (r ''Sold_Amount''))));
          r = r(''X_pixel'' := of_float (to_numeric L (r ''X_pixel'')));
          r = r(''Y_pixel'' := of_float (to_numeric L (r ''Y_pixel'')));
          r = r(''Sold_Date'' := to_datetime L (r ''Sold_Date''))
      in r)"

definition load_data :: "parsers \<Rightarrow> frame \<Rightarrow> error + frame" where
  "load_data L df =
     (let missing_cols = filter (\<lambda>col. col \<notin> set (columns df)) required_cols
      in if missing_cols \<noteq> [] then Inl (SchemaError missing_cols)
         else Inr (df\<lparr>rows := map (coerce_row L) (rows df)\<rparr>))"

text \<open>
  \<^verbatim>\<open>load_data\<close> of \<^verbatim>\<open>app.py\<close> (percentage coordinates). It has no column check:
  the first assignment that reads a column the frame lacks raises \<^verbatim>\<open>KeyError\<close>.
  The two coordinate columns are overwritten with the rescaled values.
\<close>

definition Y_STRETCH :: real where
  "Y_STRETCH = 1.75"

definition coerce_row_pct :: "parsers \<Rightarrow> row \<Rightarrow> row" where
  "coerce_row_pct L r0 =
     (let r = r0(''Plot_Number'' := astype_str L (r0 ''Plot_Number''));
          r = r(''Plot_Size'' := of_float (to_numeric L (r ''Plot_Size'')));
          r = r(''Sold_Amount'' := Num (fillna 0 (to_numeric L (r ''Sold_Amount''))));
          r = r(''X_pct'' := of_float (mul_scalar (to_numeric L (r ''X_pct'')) (3742 / 4425)));
          r = r(''Y_pct'' := of_float (mul_scalar (to_numeric L (r ''Y_pct'')) Y_STRETCH));
          r = r(''Sold_Date'' := to_datetime L (r ''Sold_Date''))
      in r)"

definition load_data_pct :: "parsers \<Rightarrow> frame \<Rightarrow> error + frame" where
  "load_data_pct L df =
     (case find (\<lambda>col. col \<notin> set (columns df))
             [''Plot_Number'', ''Plot_Size'', ''Sold_Amount'', ''X_pct'', ''Y_pct'', ''Sold_Date''] of
        Some col \<Rightarrow> Inl (KeyError col)
      | None \<Rightarrow> Inr (df\<lparr>rows := map (coerce_row_pct L) (rows df)\<rparr>))"

section \<open>Machine arithmetic of numeric columns\<close>

text \<open>
  pandas keeps a numeric column as 64-bit integers when every value it read is
  an integer, and as binary64 floats otherwise (a missing value forces floats).
  The cells of the frame do not record which, so the arithmetic on a column
  takes its dtype as an argument. Integer arithmetic wraps around. Float
  arithmetic rounds the exact result to the nearest binary64 number, ties to
  even, with gradual underflow and overflow to infinity; the sign of zero is
  not modelled (it shows only in a division by zero).
\<close>

datatype dtype = Int64 | Float64

definition wrap64 :: "int \<Rightarrow> int" where
  "wrap64 n = (n + 2 ^ 63) mod 2 ^ 64 - 2 ^ 63"

text \<open>Rounding to the nearest integer, ties to the even one.\<close>

definition round_even :: "real \<Rightarrow> int" where
  "round_even y =
     (let f = \<lfloor>y\<rfloor>; d = y - of_int f
      in if d < 1 / 2 then f else if 1 / 2 < d then f + 1 else if even f then f else f + 1)"

text \<open>
  The binary exponent of a number, not below that of the smallest normal
  number, and the spacing of binary64 numbers around it (53 significant bits).
\<close>

definition expo :: "real \<Rightarrow> int" where
  "expo x = max \<lfloor>log 2 \<bar>x\<bar>\<rfloor> (- 1022)"

definition ulp :: "real \<Rightarrow> real" where
  "ulp x = 2 powr of_int (expo x - 52)"

definition round_fin :: "real \<Rightarrow> real" where
  "round_fin x = (if x = 0 then 0 else of_int (round_even (x / ulp x)) * ulp x)"

datatype f64 = Fin real | PInf | NInf | NaN

definition max_float :: real where
  "max_float = (2 ^ 53 - 1) * 2 ^ 971"

definition round64 :: "real \<Rightarrow> f64" where
  "round64 x =
     (let r = round_fin x
      in if max_float < r then PInf else if r < - max_float then NInf else Fin r)"

fun fneg :: "f64 \<Rightarrow> f64" where
  "fneg (Fin a) = Fin (- a)"
| "fneg PInf = NInf"
| "fneg NInf = PInf"
| "fneg NaN = NaN"

fun fadd :: "f64 \<Rightarrow> f64 \<Rightarrow> f64" where
  "fadd (Fin a) (Fin b) = round64 (a + b)"
| "fadd NaN b = NaN"
| "fadd a NaN = NaN"
| "fadd PInf NInf = NaN"
| "fadd NInf PInf = NaN"
| "fadd PInf b = PInf"
| "fadd a PInf = PInf"
| "fadd NInf b = NInf"
| "fadd a NInf = NInf"

definition fsub :: "f64 \<Rightarrow> f64 \<Rightarrow> f64" where
  "fsub a b = fadd a (fneg b)"

fun fmul :: "f64 \<Rightarrow> f64 \<Rightarrow> f64" where
  "fmul (Fin a) (Fin b) = round64 (a * b)"
| "fmul NaN b = NaN"
| "fmul a NaN = NaN"
| "fmul (Fin a) PInf = (if a = 0 then NaN else if 0 < a then PInf else NInf)"
| "fmul (Fin a) NInf = (if a = 0 then NaN else if 0 < a then NInf else PInf)"
| "fmul PInf (Fin b) = (if b = 0 then NaN else if 0 < b then PInf else NInf)"
| "fmul NInf (Fin b) = (if b = 0 then NaN else if 0 < b then NInf else PInf)"
| "fmul PInf PInf = PInf"
| "fmul PInf NInf = NInf"
| "fmul NInf PInf = NInf"
| "fmul NInf NInf = PInf"

fun fdiv :: "f64 \<Rightarrow> f64 \<Rightarrow> f64" where
  "fdiv (Fin a) (Fin b) =
     (if b = 0 then (if a = 0 then NaN else if 0 < a then PInf else NInf)
      else round64 (a / b))"
| "fdiv NaN b = NaN"
| "fdiv a NaN = NaN"
| "fdiv (Fin a) PInf = Fin 0"
| "fdiv (Fin a) NInf = Fin 0"
| "fdiv PInf (Fin b) = (if 0 \<le> b then PInf else NInf)"
| "fdiv NInf (Fin b) = (if 0 \<le> b then NInf else PInf)"
| "fdiv a b = NaN"

text \<open>\<^verbatim>\<open>series ** 0.5\<close>: the correctly rounded square root, \<^verbatim>\<open>NaN\<close> below zero.\<close>

fun fsqrt :: "f64 \<Rightarrow> f64" where
  "fsqrt (Fin a) = (if a < 0 then NaN else round64 (sqrt a))"
| "fsqrt PInf = PInf"
| "fsqrt NInf = NaN"
| "fsqrt NaN = NaN"

text \<open>\<^verbatim>\<open>value > 0\<close>, false for \<^verbatim>\<open>NaN\<close>.\<close>

fun gt0 :: "f64 \<Rightarrow> bool" where
  "gt0 (Fin a) = (0 < a)"
| "gt0 PInf = True"
| "gt0 v = False"

text \<open>A cell of a numeric column, and a value of a float series, as a machine number.\<close>

fun cell_f64 :: "cell \<Rightarrow> f64" where
  "cell_f64 (Num x) = Fin x"
| "cell_f64 c = NaN"

fun opt_f64 :: "real option \<Rightarrow> f64" where
  "opt_f64 (Some x) = Fin x"
| "opt_f64 None = NaN"

text \<open>The conversion of a 64-bit integer to binary64.\<close>

fun to_float :: "f64 \<Rightarrow> f64" where
  "to_float (Fin a) = round64 a"
| "to_float v = v"

text \<open>
  \<^verbatim>\<open>a - b\<close> and \<^verbatim>\<open>a + b\<close> in the arithmetic of the column, and \<^verbatim>\<open>a / b\<close>, which
  is a float division also for integers (both sides are converted first).
\<close>

fun col_sub :: "dtype \<Rightarrow> f64 \<Rightarrow> f64 \<Rightarrow> f64" where
  "col_sub Float64 a b = fsub a b"
| "col_sub Int64 (Fin a) (Fin b) = Fin (of_int (wrap64 (\<lfloor>a\<rfloor> - \<lfloor>b\<rfloor>)))"
| "col_sub Int64 a b = NaN"

fun col_add :: "dtype \<Rightarrow> f64 \<Rightarrow> f64 \<Rightarrow> f64" where
  "col_add Float64 a b = fadd a b"
| "col_add Int64 (Fin a) (Fin b) = Fin (of_int (wrap64 (\<lfloor>a\<rfloor> + \<lfloor>b\<rfloor>)))"
| "col_add Int64 a b = NaN"

fun true_div :: "dtype \<Rightarrow> f64 \<Rightarrow> f64 \<Rightarrow> f64" where
  "true_div Float64 a b = fdiv a b"
| "true_div Int64 a b = fdiv (to_float a) (to_float b)"

section \<open>Coordinate mapping (pixel strategy)\<close>


definition Y_plot :: "dtype \<Rightarrow> 32 word \<Rightarrow> row \<Rightarrow> f64" where
  "Y_plot dt img_height r =
     col_sub dt (Fin (real (unat img_height))) (cell_f64 (r ''Y_pixel''))"

section \<open>Filter engine\<close>

text \<open>The values the filter widgets of \<^verbatim>\<open>render_dashboard\<close> hand to the filter.\<close>

record criteria =
  start_date :: int
  end_date :: int
  include_unsold :: bool
  selected_owners :: "string list"
  min_size :: real
  max_size :: real

definition date_filter :: "criteria \<Rightarrow> row \<Rightarrow> bool" where
  "date_filter c r =
     ((isna (r ''Sold_Date'') \<and> include_unsold c) \<or>
      (ts_ge (r ''Sold_Date'') (start_date c) \<and> ts_le (r ''Sold_Date'') (end_date c)))"

definition owner_filter :: "criteria \<Rightarrow> row \<Rightarrow> bool" where
  "owner_filter c r = isin (r ''Owner_Name'') (selected_owners c)"

definition size_filter :: "criteria \<Rightarrow> row \<Rightarrow> bool" where
  "size_filter c r =
     (num_ge (r ''Plot_Size'') (min_size c) \<and> num_le (r ''Plot_Size'') (max_size c))"

definition df_filtered :: "criteria \<Rightarrow> row list \<Rightarrow> row list" where
  "df_filtered c df = filter (\<lambda>r. date_filter c r \<and> owner_filter c r \<and> size_filter c r) df"

text \<open>
  The filter of \<^verbatim>\<open>app.py\<close> and \<^verbatim>\<open>app_v2.py\<close>: no unsold switch and no size
  clause (those fields of the criteria are not read).
\<close>

definition df_filtered_v1 :: "criteria \<Rightarrow> row list \<Rightarrow> row list" where
  "df_filtered_v1 c df =
     filter (\<lambda>r. (isna (r ''Sold_Date'') \<or>
                  (ts_ge (r ''Sold_Date'') (start_date c) \<and> ts_le (r ''Sold_Date'') (end_date c))) \<and>
                 isin (r ''Owner_Name'') (selected_owners c)) df"

section \<open>Marker sizing (normalised square root)\<close>

text \<open>\<^verbatim>\<open>series.min()\<close> and \<^verbatim>\<open>series.max()\<close> skip missing values and are \<^verbatim>\<open>NaN\<close> when none is left.\<close>

definition series_min :: "real option list \<Rightarrow> real option" where
  "series_min s = (case List.map_filter id s of [] \<Rightarrow> None | x # xs \<Rightarrow> Some (fold min xs x))"

definition series_max :: "real option list \<Rightarrow> real option" where
  "series_max s = (case List.map_filter id s of [] \<Rightarrow> None | x # xs \<Rightarrow> Some (fold max xs x))"

text \<open>
  The marker block of \<^verbatim>\<open>render_dashboard\<close>, in the arithmetic of the
  \<^verbatim>\<open>Plot_Size\<close> column. \<^verbatim>\<open>size_range_val > 0\<close> is false for \<^verbatim>\<open>NaN\<close>.
\<close>

definition marker_sizes :: "dtype \<Rightarrow> row list \<Rightarrow> f64 list" where
  "marker_sizes dt df =
     (if length df > 0 then
        (let min_marker = 12; max_marker = 40;
             plot_size = map (\<lambda>r. as_float (r ''Plot_Size'')) df;
             size_range_val =
               col_sub dt (opt_f64 (series_max plot_size)) (opt_f64 (series_min plot_size))
         in if gt0 size_range_val then
              (let normalized_sizes =
                     map (\<lambda>p. true_div dt
                                (col_sub dt (opt_f64 p) (opt_f64 (series_min plot_size)))
                                size_range_val) plot_size
               in map (\<lambda>t. fadd (Fin min_marker)
                              (fmul (fsqrt t) (Fin (max_marker - min_marker))))
                      normalized_sizes)
            else replicate (length df) (Fin 30))
      else [])"


section \<open>Summary aggregator\<close>

record summary_row =
  Owner :: string
  Sold_Plots :: int
  Total_Sold_Amount :: f64

text \<open>
  The float summations of pandas (the compensated sum of a group, the sum of a
  series) are library code outside the repository; the model takes them as
  parameters. Integer sums wrap around.
\<close>

record reductions =
  groupby_sum_f64 :: "real list \<Rightarrow> f64"
  series_sum_f64 :: "f64 list \<Rightarrow> f64"

text \<open>
  \<^verbatim>\<open>count\<close> counts the cells that are not missing; \<^verbatim>\<open>sum\<close> skips missing values.
  A count is at most the number of rows of the sheet, so counts and their sum
  stay far from the 64-bit bound and are kept as integers.
\<close>

definition count_cells :: "cell list \<Rightarrow> int" where
  "count_cells cs = int (length (filter (\<lambda>c. \<not> isna c) cs))"

definition group_sum :: "reductions \<Rightarrow> dtype \<Rightarrow> real option list \<Rightarrow> f64" where
  "group_sum R dt s =
     (let xs = List.map_filter id s
      in case dt of
           Int64 \<Rightarrow> Fin (of_int (wrap64 (sum_list (map floor xs))))
         | Float64 \<Rightarrow> groupby_sum_f64 R xs)"

fun f64_floor :: "f64 \<Rightarrow> int" where
  "f64_floor (Fin a) = \<lfloor>a\<rfloor>"
| "f64_floor v = 0"

definition column_sum :: "reductions \<Rightarrow> dtype \<Rightarrow> f64 list \<Rightarrow> f64" where
  "column_sum R dt vs =
     (case dt of
        Int64 \<Rightarrow> Fin (of_int (wrap64 (sum_list (map f64_floor vs))))
      | Float64 \<Rightarrow> series_sum_f64 R vs)"

text \<open>
  \<^verbatim>\<open>groupby("Owner_Name", as_index=False)\<close>: one group per distinct key, in sorted
  key order, missing keys dropped. It is applied to rows that passed
  \<^verbatim>\<open>isin(selected_owners)\<close>, whose owner cells are strings. The sum is in the
  arithmetic of the \<^verbatim>\<open>Sold_Amount\<close> column.
\<close>

definition group_keys :: "row list \<Rightarrow> string list" where
  "group_keys df =
     sort (remdups (List.map_filter (\<lambda>r. case r ''Owner_Name'' of Str s \<Rightarrow> Some s | _ \<Rightarrow> None) df))"

definition sold_agg ::
  "reductions \<Rightarrow> dtype \<Rightarrow> string list \<Rightarrow> row list \<Rightarrow> (string \<times> int \<times> f64) list" where
  "sold_agg R dt selected df =
     (let sold = filter (\<lambda>r. r ''Status'' = Str ''Sold'' \<and> isin (r ''Owner_Name'') selected) df
      in map (\<lambda>k. let g = filter (\<lambda>r. r ''Owner_Name'' = Str k) sold
                  in (k, count_cells (map (\<lambda>r. r ''Plot_Number'') g),
                         group_sum R dt (map (\<lambda>r. as_float (r ''Sold_Amount'')) g)))
             (group_keys sold))"

text \<open>
  The \<^verbatim>\<open>Owner_Name\<close> column holds Python objects when the sheet has no rows or
  some owner cell is a string; otherwise it is numeric.
\<close>

definition owner_is_object :: "row list \<Rightarrow> bool" where
  "owner_is_object df =
     (df = [] \<or> list_ex (\<lambda>r. case r ''Owner_Name'' of Str s \<Rightarrow> True | _ \<Rightarrow> False) df)"

text \<open>
  \<^verbatim>\<open>base.merge(sold_agg, on="Owner", how="left")\<close>: the rows of the left frame in
  their order, each once per matching right row, or once with missing values
  when nothing matches. When both frames are empty pandas compares the key
  dtypes: the key of the empty \<^verbatim>\<open>base\<close> is float, and against an object key on
  the right the merge raises \<^verbatim>\<open>ValueError\<close>.
\<close>

definition merge_left ::
  "bool \<Rightarrow> string list \<Rightarrow> (string \<times> int \<times> f64) list \<Rightarrow>
     error + (string \<times> int option \<times> f64 option) list" where
  "merge_left right_key_object base agg =
     (if base = [] \<and> agg = [] \<and> right_key_object then Inl MergeError
      else Inr (concat (map (\<lambda>ow. case filter (\<lambda>(k, n, a). k = ow) agg of
                                    [] \<Rightarrow> [(ow, None, None)]
                                  | ms \<Rightarrow> map (\<lambda>(k, n, a). (ow, Some n, Some a)) ms) base)))"

text \<open>
  The summary table up to the \<^verbatim>\<open>pd.concat\<close> with the total row; the rupee
  formatting of the amount column that follows is presentation. The label of
  the total row is \<^verbatim>\<open>TOTAL\<close> in \<^verbatim>\<open>app.py\<close> and \<^verbatim>\<open>**TOTAL**\<close> in \<^verbatim>\<open>app_multi.py\<close>.
  An integer amount column stays integer through the merge only when every
  selected owner found its group; a missing value turns it into floats.
\<close>

definition summarize ::
  "reductions \<Rightarrow> dtype \<Rightarrow> string \<Rightarrow> string list \<Rightarrow> row list \<Rightarrow> error + summary_row list" where
  "summarize R dt total_label selected df =
     (case merge_left (owner_is_object df) selected (sold_agg R dt selected df) of
        Inl e \<Rightarrow> Inl e
      | Inr merged \<Rightarrow>
          (let dt' = (if dt = Int64 \<and> list_all (\<lambda>(ow, n, a). a \<noteq> None) merged
                      then Int64 else Float64);
               summary = map (\<lambda>(ow, n, a).
                                \<lparr>Owner = ow, Sold_Plots = fillna 0 n,
                                 Total_Sold_Amount =
                                   fillna (Fin 0)
                                     (map_option (if dt' = dt then id else to_float) a)\<rparr>)
                             merged;
               total_row = \<lparr>Owner = total_label,
                            Sold_Plots = sum_list (map Sold_Plots summary),
                            Total_Sold_Amount = column_sum R dt' (map Total_Sold_Amount summary)\<rparr>
           in Inr (summary @ [total_row])))"

text \<open>The rows of one owner that the specification counts.\<close>

definition sold_of :: "string \<Rightarrow> row list \<Rightarrow> row list" where
  "sold_of ow df = filter (\<lambda>r. r ''Status'' = Str ''Sold'' \<and> r ''Owner_Name'' = Str ow) df"

section \<open>A concrete instance of the parsers\<close>

text \<open>
  For evaluating the model on concrete tables: unsigned decimal numbers, and
  dates \<^verbatim>\<open>DD/MM/YY\<close> read to the day key \<^verbatim>\<open>YYYYMMDD\<close> (years 69 to 99 in the
  1900s, as \<^verbatim>\<open>%y\<close> does).
\<close>

definition is_digit :: "char \<Rightarrow> bool" where
  "is_digit ch = (ch \<in> set ''0123456789'')"

definition digits_value :: "string \<Rightarrow> nat" where
  "digits_value s = fold (\<lambda>ch n. 10 * n + (of_char ch - 48)) s 0"

definition parse_decimal :: "string \<Rightarrow> real option" where
  "parse_decimal s = (if s \<noteq> [] \<and> list_all is_digit s then Some (real (digits_value s)) else None)"

definition parse_dmy :: "string \<Rightarrow> int option" where
  "parse_dmy s =
     (if length s = 8 \<and> s ! 2 = CHR ''/'' \<and> s ! 5 = CHR ''/'' \<and>
         list_all is_digit (take 2 s @ take 2 (drop 3 s) @ drop 6 s)
      then (let d = digits_value (take 2 s); m = digits_value (take 2 (drop 3 s));
                y = digits_value (drop 6 s)
            in if 1 \<le> d \<and> d \<le> 31 \<and> 1 \<le> m \<and> m \<le> 12
               then Some (int (((if y < 69 then 2000 else 1900) + y) * 10000 + m * 100 + d))
               else None)
      else None)"

fun show_nat :: "nat \<Rightarrow> string" where
  "show_nat n = (if n < 10 then [''0123456789'' ! n]
                 else show_nat (n div 10) @ [''0123456789'' ! (n mod 10)])"

definition sample_parsers :: parsers where
  "sample_parsers = \<lparr>parse_number = parse_decimal,
                     format_number = (\<lambda>x. show_nat (nat \<lfloor>x\<rfloor>)),
                     format_timestamp = (\<lambda>t. show_nat (nat t)),
                     strptime = parse_dmy\<rparr>"

section \<open>Concrete tables\<close>

text \<open>
  A small sheet in the pixel layout and one in the percentage layout, a
  criteria value, and the first sheet after \<^verbatim>\<open>load_data\<close>. Rows one and two
  are sold plots of owner \<^verbatim>\<open>A\<close>; row three has an unreadable size, amount and
  vertical coordinate; row four is an unsold plot whose size arrives as text.
\<close>

definition table_row :: "string list \<Rightarrow> cell list \<Rightarrow> row" where
  "table_row names cells = fold (\<lambda>(name, c) r. r(name := c)) (zip names cells) empty_row"

definition sample_cells :: "cell list list" where
  "sample_cells =
     [[Num 1, Num 1000, Num 100000, Num 10, Num 20, Str ''05/01/24'', Str ''A'', Str ''Sold''],
      [Num 2, Num 2000, Num 50000, Num 30, Num 40, Str ''01/02/24'', Str ''A'', Str ''Sold''],
      [Str ''3A'', Str ''big'', Str ''n/a'', Num 50, Str ''n/a'', Null, Str ''B'', Str ''Available''],
      [Num 4, Str ''4000'', Null, Num 70, Num 80, Null, Str ''C'', Str ''Available'']]"

definition sample_frame :: frame where
  "sample_frame = \<lparr>columns = required_cols, rows = map (table_row required_cols) sample_cells\<rparr>"

definition pct_cols :: "string list" where
  "pct_cols = [''Plot_Number'', ''Plot_Size'', ''Sold_Amount'', ''X_pct'', ''Y_pct'',
     ''Sold_Date'', ''Owner_Name'', ''Status'']"

definition sample_frame_pct :: frame where
  "sample_frame_pct = \<lparr>columns = pct_cols, rows = map (table_row pct_cols) sample_cells\<rparr>"

definition sample_dataset :: "row list" where
  "sample_dataset = map (coerce_row sample_parsers) (rows sample_frame)"

definition sample_criteria :: criteria where
  "sample_criteria = \<lparr>start_date = 20240101, end_date = 20240229, include_unsold = True,
     selected_owners = [''A'', ''B'', ''C''], min_size = 1000, max_size = 4000\<rparr>"

text \<open>
  An instance of the float reductions for evaluating the summary: plain
  left-to-right addition.
\<close>

definition sample_reductions :: reductions where
  "sample_reductions = \<lparr>groupby_sum_f64 = (\<lambda>xs. foldl fadd (Fin 0) (map Fin xs)),
                        series_sum_f64 = foldl fadd (Fin 0)\<rparr>"

section \<open>Evaluating the concrete tables\<close>

lemmas sample_defs = sample_dataset_def sample_frame_def sample_frame_pct_def sample_cells_def
  required_cols_def pct_cols_def table_row_def empty_row_def sample_parsers_def parse_decimal_def
  parse_dmy_def is_digit_def digits_value_def sample_criteria_def

lemma sample_dataset_cells:
  "map (\<lambda>r. map r required_cols) sample_dataset =
    [[Str ''1'', Num 1000, Num 100000, Num 10, Num 20, Ts 20240105, Str ''A'', Str ''Sold''],
     [Str ''2'', Num 2000, Num 50000, Num 30, Num 40, Ts 20240201, Str ''A'', Str ''Sold''],
     [Str ''3A'', Null, Num 0, Num 50, Null, Null, Str ''B'', Str ''Available''],
     [Str ''4'', Num 4000, Num 0, Num 70, Num 80, Null, Str ''C'', Str ''Available'']]"
  by (simp add: sample_defs coerce_row_def Let_def)

lemma load_data_sample:
  "load_data sample_parsers sample_frame = Inr (sample_frame\<lparr>rows := sample_dataset\<rparr>)"
  by (simp add: load_data_def sample_dataset_def sample_frame_def required_cols_def)


lemma sample_dataset_row_cells:
  "(sample_dataset ! 0) ''Plot_Size'' = Num 1000" "(sample_dataset ! 1) ''Plot_Size'' = Num 2000"
  "(sample_dataset ! 2) ''Plot_Size'' = Null" "(sample_dataset ! 3) ''Plot_Size'' = Num 4000"
  "(sample_dataset ! 0) ''Sold_Date'' = Ts 20240105" "(sample_dataset ! 1) ''Sold_Date'' = Ts 20240201"
  "(sample_dataset ! 2) ''Sold_Date'' = Null" "(sample_dataset ! 3) ''Sold_Date'' = Null"
  "(sample_dataset ! 0) ''Owner_Name'' = Str ''A''" "(sample_dataset ! 1) ''Owner_Name'' = Str ''A''"
  "(sample_dataset ! 2) ''Owner_Name'' = Str ''B''" "(sample_dataset ! 3) ''Owner_Name'' = Str ''C''"
  "(sample_dataset ! Suc 0) ''Plot_Size'' = Num 2000"
  "(sample_dataset ! Suc 0) ''Sold_Date'' = Ts 20240201"
  "(sample_dataset ! Suc 0) ''Owner_Name'' = Str ''A''"
  by (simp_all add: sample_defs coerce_row_def Let_def)

lemma sample_dataset_list:
  "sample_dataset = [sample_dataset ! 0, sample_dataset ! 1, sample_dataset ! 2, sample_dataset ! 3]"
  by (simp add: sample_dataset_def sample_frame_def sample_cells_def)





lemma sample_dataset_sales:
  "(sample_dataset ! 0) ''Status'' = Str ''Sold''" "(sample_dataset ! Suc 0) ''Status'' = Str ''Sold''"
  "(sample_dataset ! 2) ''Status'' = Str ''Available''" "(sample_dataset ! 3) ''Status'' = Str ''Available''"
  "(sample_dataset ! 0) ''Sold_Amount'' = Num 100000" "(sample_dataset ! Suc 0) ''Sold_Amount'' = Num 50000"
  "(sample_dataset ! 2) ''Sold_Amount'' = Num 0" "(sample_dataset ! 3) ''Sold_Amount'' = Num 0"
  by (simp_all add: sample_defs coerce_row_def Let_def)

lemma sample_sold_of:
  "sold_of ''A'' sample_dataset = [sample_dataset ! 0, sample_dataset ! Suc 0]"
  "sold_of ''B'' sample_dataset = []"
  by (subst sample_dataset_list, simp add: sold_of_def sample_dataset_row_cells sample_dataset_sales)+


section \<open>Properties of normalisation\<close>

lemma coerce_row_other:
  "col \<notin> {''Plot_Number'', ''Plot_Size'', ''Sold_Amount'', ''X_pixel'', ''Y_pixel'', ''Sold_Date''}
   \<Longrightarrow> coerce_row L r col = r col"
  by (simp add: coerce_row_def Let_def)

lemma coerce_row_pct_other:
  "col \<notin> {''Plot_Number'', ''Plot_Size'', ''Sold_Amount'', ''X_pct'', ''Y_pct'', ''Sold_Date''}
   \<Longrightarrow> coerce_row_pct L r col = r col"
  by (simp add: coerce_row_pct_def Let_def)

lemma coerce_row_sold_amount:
  "coerce_row L r ''Sold_Amount'' = Num (fillna 0 (to_numeric L (r ''Sold_Amount'')))"
  by (simp add: coerce_row_def Let_def)

lemma coerce_row_pct_sold_amount:
  "coerce_row_pct L r ''Sold_Amount'' = Num (fillna 0 (to_numeric L (r ''Sold_Amount'')))"
  by (simp add: coerce_row_pct_def Let_def)

lemma coerce_row_plot_size:
  "coerce_row L r ''Plot_Size'' = of_float (to_numeric L (r ''Plot_Size''))"
  by (simp add: coerce_row_def Let_def)

lemma coerce_row_pct_plot_size:
  "coerce_row_pct L r ''Plot_Size'' = of_float (to_numeric L (r ''Plot_Size''))"
  by (simp add: coerce_row_pct_def Let_def)

lemma coerce_row_plot_number:
  "coerce_row L r ''Plot_Number'' = astype_str L (r ''Plot_Number'')"
  by (simp add: coerce_row_def Let_def)

lemma coerce_row_pct_plot_number:
  "coerce_row_pct L r ''Plot_Number'' = astype_str L (r ''Plot_Number'')"
  by (simp add: coerce_row_pct_def Let_def)


lemma load_data_Inr:
  "load_data L df = Inr df' \<Longrightarrow>
     set required_cols \<subseteq> set (columns df) \<and> df' = df\<lparr>rows := map (coerce_row L) (rows df)\<rparr>"
  by (auto simp: load_data_def Let_def filter_empty_conv split: if_splits)

lemma load_data_pct_Inr:
  "load_data_pct L df = Inr df' \<Longrightarrow> df' = df\<lparr>rows := map (coerce_row_pct L) (rows df)\<rparr>"
  by (auto simp: load_data_pct_def split: option.splits)

text \<open>
  Claim C3. \<^verbatim>\<open>load_data\<close> of \<^verbatim>\<open>app_multi.py\<close> fails exactly when a required
  column is missing from the frame: the error then lists the missing names (in
  the order of the required list) and there is no frame; otherwise a frame comes
  back with the same columns and as many rows as went in.
\<close>

theorem load_data_schema_error:
  "(case load_data L df of
      Inl e \<Rightarrow> \<not> set required_cols \<subseteq> set (columns df) \<and>
               e = SchemaError (filter (\<lambda>col. col \<notin> set (columns df)) required_cols)
    | Inr df' \<Rightarrow> set required_cols \<subseteq> set (columns df) \<and>
               length (rows df') = length (rows df) \<and> columns df' = columns df)"
  by (auto simp: load_data_def Let_def filter_empty_conv)

theorem load_data_schema_error_witness:
  "load_data sample_parsers \<lparr>columns = [''Plot_Number'', ''Plot_Size'', ''Sold_Amount'',
       ''X_pixel'', ''Y_pixel'', ''Owner_Name''], rows = [empty_row]\<rparr>
     = Inl (SchemaError [''Sold_Date'', ''Status''])"
  using load_data_schema_error [where L = sample_parsers and df = "\<lparr>columns =
       [''Plot_Number'', ''Plot_Size'', ''Sold_Amount'', ''X_pixel'', ''Y_pixel'', ''Owner_Name''],
       rows = [empty_row]\<rparr>"]
  by (simp add: required_cols_def split: sum.splits)

text \<open>
  Claim C4. After \<^verbatim>\<open>load_data\<close> (either script), every row's \<^verbatim>\<open>Sold_Amount\<close> is a
  number, and it is 0 when the raw cell was missing or a string that does not
  parse; a \<^verbatim>\<open>Plot_Size\<close> that does not parse stays missing.
\<close>

theorem sold_amount_zero_fill:
  assumes "load_data L df = Inr df' \<or> load_data_pct L df = Inr df'"
    and "i < length (rows df)"
  shows "(\<exists>x. (rows df' ! i) ''Sold_Amount'' = Num x) \<and>
         ((rows df ! i) ''Sold_Amount'' = Null \<or>
          (\<exists>s. (rows df ! i) ''Sold_Amount'' = Str s \<and> parse_number L s = None)
            \<longrightarrow> (rows df' ! i) ''Sold_Amount'' = Num 0) \<and>
         ((\<exists>s. (rows df ! i) ''Plot_Size'' = Str s \<and> parse_number L s = None)
            \<longrightarrow> (rows df' ! i) ''Plot_Size'' = Null)"
  using assms
  by (auto dest!: load_data_Inr load_data_pct_Inr
           simp: coerce_row_sold_amount coerce_row_pct_sold_amount
                 coerce_row_plot_size coerce_row_pct_plot_size)

theorem sold_amount_zero_fill_witness:
  "load_data sample_parsers sample_frame = Inr (sample_frame\<lparr>rows := sample_dataset\<rparr>) \<and>
   (rows sample_frame ! 2) ''Sold_Amount'' = Str ''n/a'' \<and>
   parse_number sample_parsers ''n/a'' = None \<and>
   (rows sample_frame ! 2) ''Plot_Size'' = Str ''big'' \<and>
   parse_number sample_parsers ''big'' = None \<and>
   (sample_dataset ! 2) ''Sold_Amount'' = Num 0 \<and>
   (sample_dataset ! 2) ''Plot_Size'' = Null"
proof -
  have len: "2 < length (rows sample_frame)"
    by (simp add: sample_frame_def sample_cells_def)
  have raw: "(rows sample_frame ! 2) ''Sold_Amount'' = Str ''n/a''"
    "(rows sample_frame ! 2) ''Plot_Size'' = Str ''big''"
    by (simp_all add: sample_defs)
  have unparsable: "parse_number sample_parsers ''n/a'' = None"
    "parse_number sample_parsers ''big'' = None"
    by (simp_all add: sample_parsers_def parse_decimal_def is_digit_def)
  from sold_amount_zero_fill [OF disjI1 [OF load_data_sample] len] raw unparsable
  show ?thesis by (simp add: load_data_sample)
qed

text \<open>
  Claim C10. \<^verbatim>\<open>load_data\<close> (either script) changes nothing but the coerced
  columns: the owner and status cells of every row, and any other column, are
  the raw cells unchanged, and the rows stay in place.
\<close>

theorem normalisation_frame:
  assumes "load_data L df = Inr df' \<or> load_data_pct L df = Inr df'"
    and "i < length (rows df)"
  shows "length (rows df') = length (rows df) \<and>
         (rows df' ! i) ''Owner_Name'' = (rows df ! i) ''Owner_Name'' \<and>
         (rows df' ! i) ''Status'' = (rows df ! i) ''Status'' \<and>
         (\<forall>col. col \<notin> {''Plot_Number'', ''Plot_Size'', ''Sold_Amount'', ''X_pixel'', ''Y_pixel'',
                        ''X_pct'', ''Y_pct'', ''Sold_Date''}
                \<longrightarrow> (rows df' ! i) col = (rows df ! i) col)"
  using assms
  by (auto dest!: load_data_Inr load_data_pct_Inr simp: coerce_row_other coerce_row_pct_other)

theorem normalisation_frame_witness:
  "load_data sample_parsers sample_frame = Inr (sample_frame\<lparr>rows := sample_dataset\<rparr>) \<and>
   (sample_dataset ! 0) ''Owner_Name'' = Str ''A'' \<and>
   (sample_dataset ! 0) ''Status'' = Str ''Sold'' \<and>
   (sample_dataset ! 0) ''Remarks'' = (rows sample_frame ! 0) ''Remarks''"
proof -
  have len: "0 < length (rows sample_frame)"
    by (simp add: sample_frame_def sample_cells_def)
  have raw: "(rows sample_frame ! 0) ''Owner_Name'' = Str ''A''"
    "(rows sample_frame ! 0) ''Status'' = Str ''Sold''"
    by (simp_all add: sample_defs)
  from normalisation_frame [OF disjI1 [OF load_data_sample] len] raw
  show ?thesis by (simp add: load_data_sample)
qed

section \<open>Properties of the coordinate mappers\<close>



section \<open>Properties of binary64 rounding\<close>

lemma round_even_of_int [simp]: "round_even (of_int n) = n"
  by (simp add: round_even_def)

lemma round_even_bounds: "\<lfloor>y\<rfloor> \<le> round_even y" "round_even y \<le> \<lfloor>y\<rfloor> + 1"
  by (simp_all add: round_even_def Let_def)

lemma round_even_mono:
  assumes "x \<le> y"
  shows "round_even x \<le> round_even y"
proof (cases "\<lfloor>x\<rfloor> = \<lfloor>y\<rfloor>")
  case True
  then show ?thesis
    using assms by (auto simp: round_even_def Let_def)
next
  case False
  then have "\<lfloor>x\<rfloor> < \<lfloor>y\<rfloor>"
    using floor_mono [OF assms] by simp
  then have "round_even x \<le> \<lfloor>y\<rfloor>"
    using round_even_bounds(2) [of x] by simp
  then show ?thesis
    using round_even_bounds(1) [of y] by simp
qed

lemma round_even_minus: "round_even (- x) = - round_even x"
proof (cases "x \<in> \<int>")
  case True
  then obtain n where "x = of_int n" by (auto elim: Ints_cases)
  then have "- x = of_int (- n)" by simp
  then show ?thesis
    unfolding \<open>x = of_int n\<close> by (metis round_even_of_int of_int_minus)
next
  case False
  then have ne: "x \<noteq> of_int \<lfloor>x\<rfloor>"
    by (metis Ints_of_int)
  then have fl: "\<lfloor>- x\<rfloor> = - \<lfloor>x\<rfloor> - 1"
    by (simp add: floor_minus ceiling_altdef)
  from ne have d: "0 < x - of_int \<lfloor>x\<rfloor>" "x - of_int \<lfloor>x\<rfloor> < 1"
    by linarith+
  show ?thesis
    unfolding round_even_def Let_def fl using d by auto
qed


lemma ulp_pos [simp]: "0 < ulp x"
  by (simp add: ulp_def)

lemma ulp_minus [simp]: "ulp (- x) = ulp x"
  by (simp add: ulp_def expo_def)

lemma binade:
  assumes "x \<noteq> 0"
  shows "2 powr of_int \<lfloor>log 2 \<bar>x\<bar>\<rfloor> \<le> \<bar>x\<bar>" "\<bar>x\<bar> < 2 powr of_int (\<lfloor>log 2 \<bar>x\<bar>\<rfloor> + 1)"
proof -
  have "0 < \<bar>x\<bar>" using assms by simp
  from floor_log_eq_powr_iff [OF this, of 2 "\<lfloor>log 2 \<bar>x\<bar>\<rfloor>"]
  show "2 powr of_int \<lfloor>log 2 \<bar>x\<bar>\<rfloor> \<le> \<bar>x\<bar>" "\<bar>x\<bar> < 2 powr of_int (\<lfloor>log 2 \<bar>x\<bar>\<rfloor> + 1)"
    by simp_all
qed

lemma expo_mono:
  assumes "x \<noteq> 0" "\<bar>x\<bar> \<le> \<bar>y\<bar>"
  shows "expo x \<le> expo y"
proof -
  have "log 2 \<bar>x\<bar> \<le> log 2 \<bar>y\<bar>"
    using assms by simp
  then have "\<lfloor>log 2 \<bar>x\<bar>\<rfloor> \<le> \<lfloor>log 2 \<bar>y\<bar>\<rfloor>"
    by (rule floor_mono)
  then show ?thesis by (simp add: expo_def)
qed

lemma two_powr_split: "(2::real) powr of_int (e + int n) = 2 powr of_int e * 2 ^ n"
proof -
  have "(2::real) powr of_int (e + int n) = 2 powr (of_int e + real n)"
    by simp
  also have "\<dots> = 2 powr of_int e * 2 powr real n"
    by (rule powr_add)
  also have "(2::real) powr real n = 2 ^ n"
    by (rule powr_realpow) simp
  finally show ?thesis .
qed

lemma ulp_scale:
  "ulp x * 2 ^ 52 = 2 powr of_int (expo x)" "ulp x * 2 ^ 53 = 2 powr of_int (expo x + 1)"
proof -
  have "ulp x * 2 ^ 52 = 2 powr of_int (expo x - 52) * 2 ^ 52"
    by (simp only: ulp_def)
  also have "\<dots> = 2 powr of_int ((expo x - 52) + int 52)"
    by (rule two_powr_split [symmetric])
  also have "(expo x - 52) + int 52 = expo x"
    by simp
  finally show "ulp x * 2 ^ 52 = 2 powr of_int (expo x)" .
  have "ulp x * 2 ^ 53 = 2 powr of_int (expo x - 52) * 2 ^ 53"
    by (simp only: ulp_def)
  also have "\<dots> = 2 powr of_int ((expo x - 52) + int 53)"
    by (rule two_powr_split [symmetric])
  also have "(expo x - 52) + int 53 = expo x + 1"
    by simp
  finally show "ulp x * 2 ^ 53 = 2 powr of_int (expo x + 1)" .
qed

lemma scaled_less:
  assumes "x \<noteq> 0"
  shows "\<bar>x\<bar> / ulp x < 2 ^ 53"
proof -
  have "\<lfloor>log 2 \<bar>x\<bar>\<rfloor> + 1 \<le> expo x + 1"
    by (simp add: expo_def)
  then have "(2::real) powr of_int (\<lfloor>log 2 \<bar>x\<bar>\<rfloor> + 1) \<le> 2 powr of_int (expo x + 1)"
    by (simp only: powr_le_cancel_iff of_int_le_iff)
  with binade(2) [OF assms] have "\<bar>x\<bar> < 2 powr of_int (expo x + 1)"
    by linarith
  then have "\<bar>x\<bar> < 2 ^ 53 * ulp x"
    by (simp only: ulp_scale(2) [symmetric] mult.commute)
  then show ?thesis
    by (simp only: pos_divide_less_eq [OF ulp_pos])
qed

lemma scaled_ge:
  assumes "x \<noteq> 0" "- 1022 \<le> \<lfloor>log 2 \<bar>x\<bar>\<rfloor>"
  shows "2 ^ 52 \<le> \<bar>x\<bar> / ulp x"
proof -
  have e: "expo x = \<lfloor>log 2 \<bar>x\<bar>\<rfloor>"
    using assms(2) by (simp add: expo_def)
  have "2 powr of_int (expo x) \<le> \<bar>x\<bar>"
    using binade(1) [OF assms(1)] by (simp only: e)
  then have "2 ^ 52 * ulp x \<le> \<bar>x\<bar>"
    by (simp only: ulp_scale(1) [symmetric] mult.commute)
  then show ?thesis
    by (simp only: pos_le_divide_eq [OF ulp_pos])
qed

lemma round_fin_minus: "round_fin (- x) = - round_fin x"
  by (simp add: round_fin_def round_even_minus)

lemma round_fin_nonneg:
  assumes "0 \<le> x"
  shows "0 \<le> round_fin x"
proof -
  have "0 \<le> x / ulp x" using assms by (intro divide_nonneg_pos) simp_all
  then have "round_even 0 \<le> round_even (x / ulp x)"
    by (rule round_even_mono)
  then have "0 \<le> round_even (x / ulp x)"
    using round_even_of_int [of 0] by simp
  then show ?thesis
    using ulp_pos [of x] by (simp add: round_fin_def zero_le_mult_iff less_imp_le)
qed

lemma round_fin_mono_pos:
  assumes "0 < x" "x \<le> y"
  shows "round_fin x \<le> round_fin y"
proof -
  have nz: "x \<noteq> 0" "y \<noteq> 0" and abs: "\<bar>x\<bar> = x" "\<bar>y\<bar> = y"
    using assms by simp_all
  have le: "expo x \<le> expo y"
    using expo_mono [of x y] assms by simp
  show ?thesis
  proof (cases "expo x = expo y")
    case True
    then have u: "ulp x = ulp y" by (simp add: ulp_def)
    have "x / ulp y \<le> y / ulp y"
      using assms(2) by (intro divide_right_mono) (simp_all add: less_imp_le)
    then have "round_even (x / ulp y) \<le> round_even (y / ulp y)"
      by (rule round_even_mono)
    then have "of_int (round_even (x / ulp y)) * ulp y \<le> of_int (round_even (y / ulp y)) * ulp y"
      by (simp add: mult_right_mono)
    then show ?thesis
      using nz by (simp add: round_fin_def u)
  next
    case False
    with le have lt: "expo x < expo y" by simp
    then have big: "- 1022 \<le> \<lfloor>log 2 \<bar>y\<bar>\<rfloor>"
      by (auto simp: expo_def max_def split: if_splits)
    have "x / ulp x \<le> 2 ^ 53"
      using scaled_less [OF nz(1)] by (simp add: abs)
    then have "round_even (x / ulp x) \<le> round_even (of_int (2 ^ 53))"
      by (intro round_even_mono) simp
    then have "round_even (x / ulp x) \<le> 2 ^ 53"
      by (simp only: round_even_of_int)
    then have "real_of_int (round_even (x / ulp x)) \<le> 2 ^ 53"
      by (metis of_int_le_iff of_int_numeral of_int_power)
    then have "round_fin x \<le> 2 ^ 53 * ulp x"
      using nz by (simp add: round_fin_def mult_right_mono)
    also have "2 ^ 53 * ulp x = 2 powr of_int (expo x + 1)"
      by (simp only: ulp_scale(2) [symmetric] mult.commute)
    also have "\<dots> \<le> 2 powr of_int (expo y)"
      using lt by (simp only: powr_le_cancel_iff of_int_le_iff)
    also have "\<dots> = 2 ^ 52 * ulp y"
      by (simp only: ulp_scale(1) [symmetric] mult.commute)
    also have "\<dots> \<le> round_fin y"
    proof -
      have "2 ^ 52 \<le> y / ulp y"
        using scaled_ge [OF nz(2) big] by (simp add: abs)
      then have "round_even (of_int (2 ^ 52)) \<le> round_even (y / ulp y)"
        by (intro round_even_mono) simp
      then have "2 ^ 52 \<le> round_even (y / ulp y)"
        by (simp only: round_even_of_int)
      then have "2 ^ 52 \<le> real_of_int (round_even (y / ulp y))"
        by (metis of_int_le_iff of_int_numeral of_int_power)
      then show ?thesis
        using nz by (simp add: round_fin_def mult_right_mono)
    qed
    finally show ?thesis .
  qed
qed

lemma round_fin_zero [simp]: "round_fin 0 = 0"
  by (simp add: round_fin_def)

lemma round_fin_mono:
  assumes "x \<le> y"
  shows "round_fin x \<le> round_fin y"
proof -
  consider "0 < x" | "x \<le> 0" "0 \<le> y" | "y < 0" by linarith
  then show ?thesis
  proof cases
    case 1
    then show ?thesis using assms by (rule round_fin_mono_pos)
  next
    case 2
    have "0 \<le> round_fin (- x)" using 2(1) by (intro round_fin_nonneg) simp
    then have "round_fin x \<le> 0" by (simp add: round_fin_minus)
    moreover have "0 \<le> round_fin y" using 2(2) by (rule round_fin_nonneg)
    ultimately show ?thesis by simp
  next
    case 3
    then have "0 < - y" "- y \<le> - x" using assms by simp_all
    then have "round_fin (- y) \<le> round_fin (- x)" by (rule round_fin_mono_pos)
    then show ?thesis by (simp add: round_fin_minus)
  qed
qed


lemma expo_eq:
  assumes "2 powr of_int e \<le> \<bar>x\<bar>" "\<bar>x\<bar> < 2 powr of_int (e + 1)" "- 1022 \<le> e"
  shows "expo x = e"
proof -
  have "0 < (2::real) powr of_int e" by simp
  with assms(1) have pos: "0 < \<bar>x\<bar>" by linarith
  have "\<lfloor>log 2 \<bar>x\<bar>\<rfloor> = e"
    using floor_log_eq_powr_iff [OF pos, of 2 e] assms(1,2) by simp
  then show ?thesis
    using assms(3) by (simp add: expo_def)
qed

lemma round_fin_eval:
  assumes "2 powr of_int e \<le> \<bar>x\<bar>" "\<bar>x\<bar> < 2 powr of_int (e + 1)" "- 1022 \<le> e"
  shows "round_fin x = of_int (round_even (x / 2 powr of_int (e - 52))) * 2 powr of_int (e - 52)"
proof -
  have "0 < (2::real) powr of_int e" by simp
  with assms(1) have "x \<noteq> 0" by auto
  then show ?thesis
    by (simp add: round_fin_def ulp_def expo_eq [OF assms])
qed

lemma round_fin_int:
  assumes "\<bar>n\<bar> \<le> 2 ^ 53"
  shows "round_fin (of_int n) = of_int n"
proof (cases "n = 0")
  case True
  then show ?thesis by simp
next
  case False
  define x :: real where "x = of_int n"
  define E where "E = \<lfloor>log 2 \<bar>x\<bar>\<rfloor>"
  have nz: "x \<noteq> 0" using False by (simp add: x_def)
  have one: "1 \<le> \<bar>x\<bar>"
    using False unfolding x_def by (metis of_int_abs of_int_1_le_iff zero_less_abs_iff int_one_le_iff_zero_less)
  have up: "\<bar>x\<bar> \<le> 2 ^ 53"
    using assms unfolding x_def by (metis of_int_abs of_int_le_iff of_int_numeral of_int_power)
  have "0 \<le> log 2 \<bar>x\<bar>" using one by simp
  then have E0: "0 \<le> E" by (simp add: E_def)
  have p53: "(2::real) ^ 53 = 2 powr of_int 53"
    using powr_realpow [of 2 53, symmetric] by simp
  have "2 powr of_int E \<le> \<bar>x\<bar>"
    unfolding E_def by (rule binade(1) [OF nz])
  with up have "(2::real) powr of_int E \<le> 2 powr of_int 53"
    by (simp only: p53)
  then have E53: "E \<le> 53"
    by (simp only: powr_le_cancel_iff of_int_le_iff)
  have ex: "expo x = E" using E0 by (simp add: expo_def E_def)
  show ?thesis
  proof (cases "E \<le> 52")
    case True
    define k where "k = nat (52 - E)"
    have "ulp x * 2 ^ k = 2 powr of_int ((E - 52) + int k)"
      unfolding ulp_def ex by (rule two_powr_split [symmetric])
    also have "(E - 52) + int k = 0" using True by (simp add: k_def)
    finally have u: "ulp x * 2 ^ k = 1" by simp
    then have "inverse (ulp x) = 2 ^ k"
      by (rule inverse_unique)
    then have "x / ulp x = x * 2 ^ k"
      by (simp only: divide_inverse)
    also have "\<dots> = of_int (n * 2 ^ k)" by (simp add: x_def)
    finally have "round_even (x / ulp x) = n * 2 ^ k"
      by (simp only: round_even_of_int)
    then have "round_fin x = of_int n * (2 ^ k * ulp x)"
      using nz by (simp add: round_fin_def)
    then show ?thesis
      using u by (simp add: x_def mult.commute)
  next
    case False
    with E53 have E: "E = 53" by simp
    have "2 powr of_int E \<le> \<bar>x\<bar>"
      unfolding E_def by (rule binade(1) [OF nz])
    then have "2 ^ 53 \<le> \<bar>x\<bar>"
      using powr_realpow [of 2 53] by (simp add: E)
    with up have "\<bar>x\<bar> = 2 ^ 53" by simp
    then have "\<bar>n\<bar> = 2 ^ 53"
      unfolding x_def by (metis of_int_abs of_int_eq_iff of_int_numeral of_int_power)
    then have n: "n = 2 ^ 53 \<or> n = - (2 ^ 53)" by linarith
    have u: "ulp x = 2"
      by (simp add: ulp_def ex E)
    have rf: "round_fin x = of_int (round_even (x / ulp x)) * ulp x"
      using nz by (simp only: round_fin_def if_False)
    from n have "round_fin x = x"
    proof
      assume "n = 2 ^ 53"
      then have xv: "x = 2 ^ 53" by (simp add: x_def)
      have "x / ulp x = x / 2" by (simp only: u)
      also have "\<dots> = of_int (2 ^ 52)" by (simp add: xv)
      finally have r: "round_even (x / ulp x) = 2 ^ 52" by (simp only: round_even_of_int)
      have "of_int (round_even (x / ulp x)) * ulp x = of_int (2 ^ 52) * 2" by (subst r) (simp only: u)
      also have "\<dots> = x" by (simp add: xv)
      finally show ?thesis by (simp only: rf)
    next
      assume "n = - (2 ^ 53)"
      then have xv: "x = - (2 ^ 53)" by (simp add: x_def)
      have "x / ulp x = x / 2" by (simp only: u)
      also have "\<dots> = of_int (- (2 ^ 52))" by (simp add: xv)
      finally have r: "round_even (x / ulp x) = - (2 ^ 52)" by (simp only: round_even_of_int)
      have "of_int (round_even (x / ulp x)) * ulp x = of_int (- (2 ^ 52)) * 2" by (subst r) (simp only: u)
      also have "\<dots> = x" by (simp add: xv)
      finally show ?thesis by (simp only: rf)
    qed
    then show ?thesis by (simp only: x_def)
  qed
qed

lemma max_float_ge: "2 ^ 53 \<le> max_float"
  by (simp add: max_float_def)

lemma round64_fin:
  assumes "\<bar>x\<bar> \<le> 2 ^ 53"
  shows "round64 x = Fin (round_fin x)" "\<bar>round_fin x\<bar> \<le> 2 ^ 53"
proof -
  have p: "round_fin (2 ^ 53) = 2 ^ 53"
    using round_fin_int [of "2 ^ 53"] by simp
  have "round_fin x \<le> round_fin (2 ^ 53)" "round_fin (- (2 ^ 53)) \<le> round_fin x"
    using assms by (auto intro!: round_fin_mono)
  then have b: "round_fin x \<le> 2 ^ 53" "- (2 ^ 53) \<le> round_fin x"
    using p by (simp_all add: round_fin_minus)
  then show "\<bar>round_fin x\<bar> \<le> 2 ^ 53" by simp
  from b max_float_ge show "round64 x = Fin (round_fin x)"
    by (simp add: round64_def Let_def)
qed

lemma round64_int:
  assumes "\<bar>n\<bar> \<le> 2 ^ 53"
  shows "round64 (of_int n) = Fin (of_int n)"
proof -
  have "\<bar>real_of_int n\<bar> \<le> 2 ^ 53"
    using assms by (metis of_int_abs of_int_le_iff of_int_numeral of_int_power)
  from round64_fin(1) [OF this] show ?thesis
    by (simp add: round_fin_int [OF assms])
qed


lemma round_even_near:
  assumes "of_int k - 1 / 2 < y" "y < of_int k + 1 / 2"
  shows "round_even y = k"
proof (cases "of_int k \<le> y")
  case True
  then have "\<lfloor>y\<rfloor> = k" using assms(2) by linarith
  then show ?thesis using assms(2) by (simp add: round_even_def Let_def)
next
  case False
  then have "\<lfloor>y\<rfloor> = k - 1" using assms(1) by linarith
  then show ?thesis using assms(1) by (simp add: round_even_def Let_def)
qed

lemma round_even_tie_up:
  assumes "odd k"
  shows "round_even (of_int k + 1 / 2) = k + 1"
proof -
  have "\<lfloor>real_of_int k + 1 / 2\<rfloor> = k" by linarith
  then show ?thesis using assms by (simp add: round_even_def Let_def)
qed

lemma round_even_tie_down:
  "even k \<Longrightarrow> round_even (of_int k + 1 / 2) = k"
proof -
  have "\<lfloor>real_of_int k + 1 / 2\<rfloor> = k" by linarith
  then show "even k \<Longrightarrow> round_even (of_int k + 1 / 2) = k"
    by (simp add: round_even_def Let_def)
qed

lemma round64_eval:
  assumes "2 powr of_int e \<le> \<bar>x\<bar>" "\<bar>x\<bar> < 2 powr of_int (e + 1)" "- 1022 \<le> e"
    and "round_even (x / 2 powr of_int (e - 52)) = k"
    and "\<bar>of_int k * 2 powr of_int (e - 52)\<bar> \<le> max_float"
  shows "round64 x = Fin (of_int k * 2 powr of_int (e - 52))"
proof -
  have "round_fin x = of_int k * 2 powr of_int (e - 52)"
    using round_fin_eval [OF assms(1-3)] by (simp only: assms(4))
  then show ?thesis
    using assms(5) by (simp add: round64_def Let_def abs_le_iff not_less)
qed





section \<open>Properties of the pixel mapping\<close>








text \<open>
  Nor is the sum exact for every present value of a float column: with an
  image 1000 pixels high and \<^verbatim>\<open>Y_pixel = 1e17\<close> the difference rounds to
  \<open>-99999999999999008\<close> and the sum is 992.
\<close>

lemma pixel_rounding_example:
  "col_add Float64 (Y_plot Float64 1000 (empty_row(''Y_pixel'' := Num (10 ^ 17)))) (Fin (10 ^ 17))
     = Fin 992"
proof -
  have e: "round_fin (1000 - 10 ^ 17) =
      of_int (round_even ((1000 - 10 ^ 17) / 2 powr of_int (56 - 52))) * 2 powr of_int (56 - 52)"
    by (rule round_fin_eval) simp_all
  have "(1000 - 10 ^ 17) / 2 powr of_int (56 - 52) = of_int (- 6249999999999938) + (1 / 2 :: real)"
    by simp
  moreover have "round_even (of_int (- 6249999999999938) + 1 / 2) = - 6249999999999938"
    by (rule round_even_tie_down) simp
  ultimately have "round_even ((1000 - 10 ^ 17) / 2 powr of_int (56 - 52)) = - 6249999999999938"
    by (simp only:)
  with e have r: "round_fin (1000 - 10 ^ 17) = - 99999999999999008"
    by simp
  have "- max_float \<le> - 99999999999999008" "- 99999999999999008 \<le> max_float"
    by (simp_all add: max_float_def)
  with r have s: "round64 (1000 - 10 ^ 17) = Fin (- 99999999999999008)"
    by (simp add: round64_def Let_def)
  have a: "round64 (of_int 992) = Fin (of_int 992)"
    by (rule round64_int) simp
  show ?thesis
    using s a by (simp add: Y_plot_def fsub_def)
qed


section \<open>Properties of the filter\<close>

lemma df_filtered_iff:
  "r \<in> set (df_filtered c df) \<longleftrightarrow>
     r \<in> set df \<and> date_filter c r \<and> owner_filter c r \<and> size_filter c r"
  by (simp add: df_filtered_def)

text \<open>The filter of \<^verbatim>\<open>app.py\<close> is the date clause with the unsold switch on, and the owner clause.\<close>

lemma df_filtered_v1_date_clause:
  "df_filtered_v1 c df =
     filter (\<lambda>r. date_filter (c\<lparr>include_unsold := True\<rparr>) r \<and> owner_filter c r) df"
  by (simp add: df_filtered_v1_def date_filter_def owner_filter_def)

text \<open>
  Claim C2. The date clause holds of a row exactly when its sold date is missing
  and unsold plots are included, or its sold date is present and lies in the
  range, ends included. So for a row without sold date the clause is the
  include-unsold switch itself, whatever the range.
\<close>

theorem date_clause:
  "(date_filter c r \<longleftrightarrow>
      (r ''Sold_Date'' = Null \<and> include_unsold c) \<or>
      (\<exists>d. r ''Sold_Date'' = Ts d \<and> start_date c \<le> d \<and> d \<le> end_date c)) \<and>
   (r ''Sold_Date'' = Null \<longrightarrow> date_filter c r = include_unsold c)"
  by (cases "r ''Sold_Date''") (auto simp: date_filter_def isna_def)

theorem date_clause_witness:
  "(sample_dataset ! 3) ''Sold_Date'' = Null \<and>
   date_filter sample_criteria (sample_dataset ! 3) \<and>
   \<not> date_filter (sample_criteria\<lparr>include_unsold := False\<rparr>) (sample_dataset ! 3) \<and>
   \<not> date_filter sample_criteria ((sample_dataset ! 1)(''Sold_Date'' := Ts 20240301))"
proof -
  have absent: "(sample_dataset ! 3) ''Sold_Date'' = Null"
    by (simp add: sample_defs coerce_row_def Let_def)
  from date_clause [of sample_criteria "sample_dataset ! 3"]
    date_clause [of "sample_criteria\<lparr>include_unsold := False\<rparr>" "sample_dataset ! 3"]
    date_clause [of sample_criteria "(sample_dataset ! 1)(''Sold_Date'' := Ts 20240301)"]
    absent
  show ?thesis by (simp add: sample_criteria_def)
qed

text \<open>
  Claim C8. The size clause of \<^verbatim>\<open>app_multi.py\<close> holds of a row exactly when its
  plot size is a number within the range, ends included; a row whose plot size
  is missing fails it and is not in the filtered frame.
\<close>

theorem size_clause:
  "(size_filter c r \<longleftrightarrow>
      (\<exists>p. r ''Plot_Size'' = Num p \<and> min_size c \<le> p \<and> p \<le> max_size c)) \<and>
   (r ''Plot_Size'' = Null \<longrightarrow> \<not> size_filter c r \<and> r \<notin> set (df_filtered c df))"
  by (cases "r ''Plot_Size''") (auto simp: size_filter_def df_filtered_def)

theorem size_clause_witness:
  "(sample_dataset ! 2) ''Plot_Size'' = Null \<and>
   \<not> size_filter sample_criteria (sample_dataset ! 2) \<and>
   sample_dataset ! 2 \<notin> set (df_filtered sample_criteria sample_dataset)"
proof -
  have absent: "(sample_dataset ! 2) ''Plot_Size'' = Null"
    by (simp add: sample_defs coerce_row_def Let_def)
  from size_clause [of sample_criteria "sample_dataset ! 2" sample_dataset] absent
  show ?thesis by simp
qed

text \<open>
  Claim C9. Filtering a filtered frame again with the same criteria gives the
  same frame, for the filter of \<^verbatim>\<open>app_multi.py\<close> and for that of \<^verbatim>\<open>app.py\<close>.
\<close>

theorem filter_idempotent:
  "df_filtered c (df_filtered c df) = df_filtered c df \<and>
   df_filtered_v1 c (df_filtered_v1 c df) = df_filtered_v1 c df"
  by (simp add: df_filtered_def df_filtered_v1_def)

section \<open>Properties of marker sizing\<close>


lemma map_filter_id_Some: "List.map_filter id (map Some xs) = xs"
  by (induction xs) (simp_all add: List.map_filter_simps)

lemma series_min_present:
  "xs \<noteq> [] \<Longrightarrow> series_min (map Some xs) = Some (Min (set xs))"
  by (cases xs) (simp_all add: series_min_def map_filter_id_Some Min.set_eq_fold del: set_simps)

lemma series_max_present:
  "xs \<noteq> [] \<Longrightarrow> series_max (map Some xs) = Some (Max (set xs))"
  by (cases xs) (simp_all add: series_max_def map_filter_id_Some Max.set_eq_fold del: set_simps)







lemma marker_sizes_present:
  assumes "map (\<lambda>r. as_float (r ''Plot_Size'')) df = map Some xs" and "xs \<noteq> []"
  shows "marker_sizes dt df =
           (if gt0 (col_sub dt (Fin (Max (set xs))) (Fin (Min (set xs))))
            then map (\<lambda>p. fadd (Fin 12) (fmul (fsqrt (true_div dt
                       (col_sub dt (Fin p) (Fin (Min (set xs))))
                       (col_sub dt (Fin (Max (set xs))) (Fin (Min (set xs)))))) (Fin (40 - 12)))) xs
            else replicate (length xs) (Fin 30))"
proof -
  have len: "length df = length xs"
    using arg_cong [OF assms(1), of length] by simp
  have ne: "0 < length df"
    using len assms(2) by simp
  show ?thesis
    using ne len
    by (simp add: marker_sizes_def Let_def assms(1) series_min_present [OF assms(2)]
          series_max_present [OF assms(2)] comp_def)
qed





text \<open>
  Nor does a size strictly between the smallest and the largest always give a
  marker strictly between 12 and 40: for the sizes 1000,
  \<open>4000 - 2\<^sup>-\<^sup>4\<^sup>1\<close> (the binary64 number just below 4000) and 4000 of a float
  column the normalised size rounds to \<open>1 - 2\<^sup>-\<^sup>5\<^sup>3\<close>, its square root to the same
  number, the product with 28 to \<open>28 - 2\<^sup>-\<^sup>4\<^sup>8\<close>, and 12 plus that lies halfway
  between two binary64 numbers and rounds to 40.
\<close>

lemma step_d: "round64 (4000 - 1 / 2 ^ 41 - 1000) = Fin (3000 - 1 / 2 ^ 41)"
proof -
  have "round_even ((4000 - 1 / 2 ^ 41 - 1000) / 2 powr of_int (11 - 52)) = 3000 * 2 ^ 41 - 1"
  proof -
    have "(4000 - 1 / 2 ^ 41 - 1000) / 2 powr of_int (11 - 52) = real_of_int (3000 * 2 ^ 41 - 1)"
      by (simp add: powr_minus)
    then show ?thesis by (simp only: round_even_of_int)
  qed
  from round64_eval [OF _ _ _ this] show ?thesis
    by (simp add: max_float_def powr_minus)
qed

lemma step_t: "round64 ((3000 - 1 / 2 ^ 41) / 3000) = Fin (1 - 1 / 2 ^ 53)"
proof -
  have "round_even ((3000 - 1 / 2 ^ 41) / 3000 / 2 powr of_int (- 1 - 52)) = 2 ^ 53 - 1"
    by (rule round_even_near) (simp_all add: powr_minus)
  from round64_eval [OF _ _ _ this] show ?thesis
    by (simp add: max_float_def powr_minus)
qed

lemma sqrt_bounds:
  "1 - 3 / 2 ^ 54 < sqrt (1 - 1 / 2 ^ 53)" "sqrt (1 - 1 / 2 ^ 53) < 1 - 1 / 2 ^ 54"
proof -
  show "1 - 3 / 2 ^ 54 < sqrt (1 - 1 / 2 ^ 53)"
    by (rule real_less_rsqrt) (simp add: power2_eq_square)
  show "sqrt (1 - 1 / 2 ^ 53) < 1 - 1 / 2 ^ 54"
    by (rule real_less_lsqrt) (simp_all add: power2_eq_square)
qed

lemma step_s: "round64 (sqrt (1 - 1 / 2 ^ 53)) = Fin (1 - 1 / 2 ^ 53)"
proof -
  define s :: real where "s = sqrt (1 - 1 / 2 ^ 53)"
  have b: "1 - 3 / 2 ^ 54 < s" "s < 1 - 1 / 2 ^ 54"
    unfolding s_def by (rule sqrt_bounds)+
  have "round_even (s / 2 powr of_int (- 1 - 52)) = 2 ^ 53 - 1"
    using b by (intro round_even_near) (simp_all add: powr_minus field_simps)
  moreover have "2 powr of_int (- 1) \<le> \<bar>s\<bar>" "\<bar>s\<bar> < 2 powr of_int (- 1 + 1)"
    using b by (simp_all add: powr_minus)
  ultimately have "round64 s = Fin (of_int (2 ^ 53 - 1) * 2 powr of_int (- 1 - 52))"
    by (intro round64_eval) (simp_all add: max_float_def powr_minus)
  then show ?thesis
    by (simp add: s_def powr_minus)
qed

lemma step_q: "round64 ((1 - 1 / 2 ^ 53) * 28) = Fin (28 - 1 / 2 ^ 48)"
proof -
  have "round_even ((1 - 1 / 2 ^ 53) * 28 / 2 powr of_int (4 - 52)) = 28 * 2 ^ 48 - 1"
    by (rule round_even_near) (simp_all add: powr_minus)
  from round64_eval [OF _ _ _ this] show ?thesis
    by (simp add: max_float_def powr_minus)
qed

lemma step_m: "round64 (12 + (28 - 1 / 2 ^ 48)) = Fin 40"
proof -
  have "(12 + (28 - 1 / 2 ^ 48)) / 2 powr of_int (5 - 52) = real_of_int (5 * 2 ^ 50 - 1) + (1 / 2 :: real)"
    by (simp add: powr_minus)
  moreover have "round_even (real_of_int (5 * 2 ^ 50 - 1) + 1 / 2) = 5 * 2 ^ 50 - 1 + 1"
    by (rule round_even_tie_up) simp
  ultimately have "round_even ((12 + (28 - 1 / 2 ^ 48)) / 2 powr of_int (5 - 52)) = 5 * 2 ^ 50"
    by (simp add: powr_minus)
  from round64_eval [OF _ _ _ this] show ?thesis
    by (simp add: max_float_def powr_minus)
qed

lemma marker_reaches_upper_bound:
  "marker_sizes Float64
     [empty_row(''Plot_Size'' := Num 1000),
      empty_row(''Plot_Size'' := Num (4000 - 1 / 2 ^ 41)),
      empty_row(''Plot_Size'' := Num 4000)] ! 1 = Fin 40"
proof -
  have w: "round64 3000 = Fin 3000"
    using round64_int [of 3000] by simp
  have sizes: "map (\<lambda>r. as_float (r ''Plot_Size''))
      [empty_row(''Plot_Size'' := Num 1000), empty_row(''Plot_Size'' := Num (4000 - 1 / 2 ^ 41)),
       empty_row(''Plot_Size'' := Num 4000)] = map Some [1000, 4000 - 1 / 2 ^ 41, 4000]"
    by simp
  have mm: "Min (set [1000, 4000 - 1 / 2 ^ 41, 4000 :: real]) = 1000"
    "Max (set [1000, 4000 - 1 / 2 ^ 41, 4000 :: real]) = 4000"
    by simp_all
  show ?thesis
    apply (subst marker_sizes_present [OF sizes])
     apply simp
    apply (insert step_d step_t step_s step_q step_m w)
    apply (simp add: fsub_def)
    done
qed


section \<open>Properties of the summary aggregator\<close>

lemma group_keys_distinct: "distinct (group_keys df)"
  by (simp add: group_keys_def)

lemma set_map_filter:
  "set (List.map_filter f xs) = {y. \<exists>x\<in>set xs. f x = Some y}"
  by (induction xs) (auto simp: List.map_filter_simps split: option.splits)

lemma owner_key_Some:
  "(case c of Str s \<Rightarrow> Some s | _ \<Rightarrow> None) = Some x \<longleftrightarrow> c = Str x"
  by (cases c) auto

lemma group_keys_set:
  "set (group_keys df) = {s. \<exists>r\<in>set df. r ''Owner_Name'' = Str s}"
  by (simp add: group_keys_def set_map_filter owner_key_Some)

lemma filter_key_distinct:
  "distinct ks \<Longrightarrow>
     filter (\<lambda>(k, n, a). k = ow) (map (\<lambda>k. (k, f k, g k)) ks) =
       (if ow \<in> set ks then [(ow, f ow, g ow)] else [])"
  by (induction ks) auto

lemma sold_group:
  "ow \<in> set selected \<Longrightarrow>
     filter (\<lambda>r. r ''Owner_Name'' = Str ow)
       (filter (\<lambda>r. r ''Status'' = Str ''Sold'' \<and> isin (r ''Owner_Name'') selected) df)
     = sold_of ow df"
  by (induction df) (auto simp: sold_of_def)

lemma count_cells_present:
  "\<forall>r\<in>set g. r ''Plot_Number'' \<noteq> Null \<Longrightarrow>
     count_cells (map (\<lambda>r. r ''Plot_Number'') g) = int (length g)"
  by (induction g) (auto simp: count_cells_def isna_def)

lemma sold_of_subset: "set (sold_of ow df) \<subseteq> set df"
  by (auto simp: sold_of_def)

lemma sold_of_empty:
  assumes "ow \<in> set selected"
    and "ow \<notin> set (group_keys
           (filter (\<lambda>r. r ''Status'' = Str ''Sold'' \<and> isin (r ''Owner_Name'') selected) df))"
  shows "sold_of ow df = []"
proof (rule ccontr)
  assume "sold_of ow df \<noteq> []"
  then obtain r where r: "r \<in> set (sold_of ow df)"
    by (cases "sold_of ow df") auto
  then have "r \<in> set df" "r ''Status'' = Str ''Sold''" "r ''Owner_Name'' = Str ow"
    by (auto simp: sold_of_def)
  with assms(1) have "ow \<in> set (group_keys
      (filter (\<lambda>r. r ''Status'' = Str ''Sold'' \<and> isin (r ''Owner_Name'') selected) df))"
    by (auto simp: group_keys_set)
  with assms(2) show False by simp
qed

lemma loaded_plot_number:
  assumes "load_data L raw = Inr fr \<or> load_data_pct L raw = Inr fr"
  shows "\<forall>r\<in>set (rows fr). r ''Plot_Number'' \<noteq> Null"
proof -
  have "astype_str L c \<noteq> Null" for c by (cases c) simp_all
  then show ?thesis
    using assms
    by (auto dest!: load_data_Inr load_data_pct_Inr
          simp: coerce_row_plot_number coerce_row_pct_plot_number)
qed



lemma isin_nil [simp]: "isin c [] = False"
  by (cases c) simp_all

lemma sold_agg_nothing_selected: "sold_agg R dt [] df = []"
  by (simp add: sold_agg_def group_keys_def List.map_filter_simps)

lemma summarize_numeric_owners:
  "\<not> owner_is_object df \<Longrightarrow>
     summarize R dt total_label [] df =
       Inr [\<lparr>Owner = total_label, Sold_Plots = 0, Total_Sold_Amount = column_sum R dt []\<rparr>]"
  by (cases dt) (simp_all add: summarize_def sold_agg_nothing_selected merge_left_def)

lemma concat_map_singleton:
  "(\<And>x. x \<in> set xs \<Longrightarrow> f x = [g x]) \<Longrightarrow> concat (map f xs) = map g xs"
  by (induction xs) simp_all

lemma merged_rows:
  assumes "set base \<subseteq> set selected" and "\<forall>r\<in>set df. r ''Plot_Number'' \<noteq> Null"
  shows "concat (map (\<lambda>ow. case filter (\<lambda>(k, n, a). k = ow) (sold_agg R dt selected df) of
                          [] \<Rightarrow> [(ow, None, None)]
                        | ms \<Rightarrow> map (\<lambda>(k, n, a). (ow, Some n, Some a)) ms) base)
         = map (\<lambda>ow. if sold_of ow df = [] then (ow, None, None)
                      else (ow, Some (int (length (sold_of ow df))),
                            Some (group_sum R dt (map (\<lambda>r. as_float (r ''Sold_Amount'')) (sold_of ow df)))))
               base"
proof (rule concat_map_singleton)
  fix ow
  assume "ow \<in> set base"
  with assms(1) have sel: "ow \<in> set selected"
    by blast
  let ?sold = "filter (\<lambda>r. r ''Status'' = Str ''Sold'' \<and> isin (r ''Owner_Name'') selected) df"
  have pn: "\<forall>r\<in>set (sold_of ow df). r ''Plot_Number'' \<noteq> Null"
    using assms(2) sold_of_subset by blast
  have agg: "filter (\<lambda>(k, n, a). k = ow) (sold_agg R dt selected df) =
      (if ow \<in> set (group_keys ?sold)
       then [(ow, int (length (sold_of ow df)),
              group_sum R dt (map (\<lambda>r. as_float (r ''Sold_Amount'')) (sold_of ow df)))]
       else [])"
    apply (simp only: sold_agg_def Let_def filter_key_distinct [OF group_keys_distinct])
    apply (simp only: sold_group [OF sel] count_cells_present [OF pn])
    done
  have key: "ow \<in> set (group_keys ?sold) \<longleftrightarrow> sold_of ow df \<noteq> []"
  proof
    assume "ow \<in> set (group_keys ?sold)"
    then obtain r where "r \<in> set ?sold" "r ''Owner_Name'' = Str ow"
      by (auto simp: group_keys_set)
    then have "r \<in> set (sold_of ow df)"
      by (simp add: sold_of_def)
    then show "sold_of ow df \<noteq> []" by auto
  next
    assume "sold_of ow df \<noteq> []"
    then show "ow \<in> set (group_keys ?sold)"
      using sold_of_empty [OF sel] by blast
  qed
  show "(case filter (\<lambda>(k, n, a). k = ow) (sold_agg R dt selected df) of
                          [] \<Rightarrow> [(ow, None, None)]
                        | ms \<Rightarrow> map (\<lambda>(k, n, a). (ow, Some n, Some a)) ms)
      = [if sold_of ow df = [] then (ow, None, None)
         else (ow, Some (int (length (sold_of ow df))),
               Some (group_sum R dt (map (\<lambda>r. as_float (r ''Sold_Amount'')) (sold_of ow df))))]"
    apply (subst agg)
    apply (simp add: key)
    done
qed


text \<open>
  What the aggregator returns for a non-empty selection on a frame whose
  \<^verbatim>\<open>Plot_Number\<close> cells are present (as they are after \<^verbatim>\<open>load_data\<close>): one row per
  selected owner, in the order given, with the number of its sold rows and the
  sum of its group in the arithmetic of the \<^verbatim>\<open>Sold_Amount\<close> column (0 and 0
  when it has none), then the total row.
\<close>

lemma summarize_rows:
  assumes "selected \<noteq> []" and "\<forall>r\<in>set df. r ''Plot_Number'' \<noteq> Null"
  shows "summarize R dt total_label selected df =
    (let dt' = (if dt = Int64 \<and> list_all (\<lambda>ow. sold_of ow df \<noteq> []) selected then Int64 else Float64);
         summary = map (\<lambda>ow.
             \<lparr>Owner = ow, Sold_Plots = int (length (sold_of ow df)),
              Total_Sold_Amount =
                (if sold_of ow df = [] then Fin 0
                 else (if dt' = dt then id else to_float)
                        (group_sum R dt (map (\<lambda>r. as_float (r ''Sold_Amount'')) (sold_of ow df))))\<rparr>)
           selected
     in Inr (summary @
             [\<lparr>Owner = total_label, Sold_Plots = sum_list (map Sold_Plots summary),
               Total_Sold_Amount = column_sum R dt' (map Total_Sold_Amount summary)\<rparr>]))"
proof -
  define merged where "merged = map (\<lambda>ow. if sold_of ow df = [] then (ow, None, None)
                      else (ow, Some (int (length (sold_of ow df))),
                            Some (group_sum R dt (map (\<lambda>r. as_float (r ''Sold_Amount'')) (sold_of ow df)))))
               selected"
  have m: "merge_left (owner_is_object df) selected (sold_agg R dt selected df) = Inr merged"
    using assms(1) merged_rows [OF subset_refl assms(2), where R = R and dt = dt]
    by (simp add: merge_left_def merged_def)
  have all: "list_all (\<lambda>(ow, n, a). a \<noteq> None) merged = list_all (\<lambda>ow. sold_of ow df \<noteq> []) selected"
    unfolding merged_def by (induction selected) auto
  have summary: "map (\<lambda>(ow, n, a).
                                \<lparr>Owner = ow, Sold_Plots = fillna 0 n,
                                 Total_Sold_Amount = fillna (Fin 0) (map_option c a)\<rparr>) merged
      = map (\<lambda>ow.
             \<lparr>Owner = ow, Sold_Plots = int (length (sold_of ow df)),
              Total_Sold_Amount =
                (if sold_of ow df = [] then Fin 0
                 else c (group_sum R dt (map (\<lambda>r. as_float (r ''Sold_Amount'')) (sold_of ow df))))\<rparr>)
           selected" for c
    unfolding merged_def by (induction selected) auto
  show ?thesis
    unfolding summarize_def m sum.case Let_def all summary
    by (rule refl)
qed

lemma sample_plot_numbers: "\<forall>r\<in>set sample_dataset. r ''Plot_Number'' \<noteq> Null"
  using loaded_plot_number [OF disjI1 [OF load_data_sample]] by simp

lemma sample_owner_is_object: "owner_is_object sample_dataset"
  by (subst sample_dataset_list) (simp add: owner_is_object_def sample_dataset_row_cells)

lemma summarize_sample:
  "summarize sample_reductions Float64 ''TOTAL'' [''A'', ''B''] sample_dataset =
     Inr [\<lparr>Owner = ''A'', Sold_Plots = 2, Total_Sold_Amount = Fin 150000\<rparr>,
          \<lparr>Owner = ''B'', Sold_Plots = 0, Total_Sold_Amount = Fin 0\<rparr>,
          \<lparr>Owner = ''TOTAL'', Sold_Plots = 2, Total_Sold_Amount = Fin 150000\<rparr>]"
proof -
  have r: "round64 100000 = Fin 100000" "round64 150000 = Fin 150000"
    using round64_int [of 100000] round64_int [of 150000] by simp_all
  show ?thesis
    apply (subst summarize_rows [OF _ sample_plot_numbers])
     apply simp
    apply (simp add: sample_sold_of sample_dataset_sales group_sum_def column_sum_def
        sample_reductions_def List.map_filter_simps r)
    done
qed

text \<open>
  Claim C1 fails when no owner is selected. On a sheet whose owner column holds
  strings (or that has no rows) the left frame of the merge is empty with a
  float key, the aggregate is empty with an object key, and the merge raises:
  no table is returned, where the claim has a table of the total row alone.
\<close>

theorem summarize_nothing_selected:
  "owner_is_object df \<Longrightarrow> summarize R dt total_label [] df = Inl MergeError"
  by (simp add: summarize_def sold_agg_nothing_selected merge_left_def)

theorem summarize_nothing_selected_witness:
  "owner_is_object sample_dataset \<and>
   summarize sample_reductions Float64 ''TOTAL'' [] sample_dataset = Inl MergeError"
  using summarize_nothing_selected [OF sample_owner_is_object,
      where R = sample_reductions and dt = Float64 and total_label = "''TOTAL''"]
    sample_owner_is_object
  by simp

end
